theory Spec2Isabelle
  imports Main "HOL-Library.Multiset"
begin

section \<open>Data model (main\_app/models.py)\<close>

text \<open>
  The three models of \<^verbatim>\<open>models.py\<close> and the \<^verbatim>\<open>User\<close> model they refer to are
  records; a database table is the list of its rows. Primary keys and the integers
  captured by the \<^verbatim>\<open><int:...>\<close> path converters are natural numbers. Record
  fields carry the model's name as a prefix (\<^verbatim>\<open>Cat.id\<close> is \<open>Cat_id\<close>), since
  \<^verbatim>\<open>id\<close>, \<^verbatim>\<open>name\<close> and \<^verbatim>\<open>date\<close> occur in several models.
\<close>

datatype date = Date (year: nat) (month: nat) (day: nat)

text \<open>\<^verbatim>\<open>MEALS\<close>: a tuple of 2-tuples (code, label).\<close>

definition MEALS :: "(string \<times> string) list" where
  "MEALS = [(''B'', ''Breakfast''), (''L'', ''Lunch''), (''D'', ''Dinner'')]"

record User =
  User_id :: nat
  User_username :: string
  User_password :: string

record Cat =
  Cat_id :: nat
  Cat_name :: string
  Cat_breed :: string
  Cat_description :: string
  Cat_age :: int
  Cat_user :: nat

record Feeding =
  Feeding_id :: nat
  Feeding_date :: date
  Feeding_meal :: string
  Feeding_cat_id :: nat

record Toy =
  Toy_id :: nat
  Toy_name :: string
  Toy_color :: string

text \<open>
  The persistent state: one table per model, the association table of the
  many-to-many field \<^verbatim>\<open>Cat.toys\<close> (pairs of a cat id and a toy id), and the
  counters from which the database draws the next automatic primary key.
\<close>

record db =
  users :: "User list"
  cats :: "Cat list"
  feedings :: "Feeding list"
  toys :: "Toy list"
  cat_toys :: "(nat \<times> nat) list"
  next_user_id :: nat
  next_cat_id :: nat
  next_feeding_id :: nat
  next_toy_id :: nat

section \<open>Requests, forms and responses\<close>

datatype http_method = GET | POST

type_synonym QueryDict = "string \<rightharpoonup> string"

text \<open>
  A request: its method, the authenticated user of its session (\<open>None\<close> for an
  anonymous request) and the submitted form data \<^verbatim>\<open>request.POST\<close>.
\<close>

record request =
  request_method :: http_method
  request_user :: "nat option"
  request_POST :: QueryDict

datatype form_class = FeedingForm | UserCreationForm | AuthenticationForm | ModelForm "string list"

text \<open>
  A form object: bound to submitted data, or unbound (constructed with no argument),
  in which case it holds no data.
\<close>

record form =
  form_cls :: form_class
  is_bound :: bool
  form_data :: QueryDict

definition Form :: "form_class \<Rightarrow> QueryDict option \<Rightarrow> form" where
  "Form cls d = \<lparr>form_cls = cls, is_bound = (d \<noteq> None),
                 form_data = (case d of None \<Rightarrow> Map.empty | Some q \<Rightarrow> q)\<rparr>"

datatype ctx_value =
    CatV Cat
  | CatsV "Cat list"
  | ToyV Toy
  | ToysV "Toy list"
  | FormV form
  | StrV string

text \<open>
  Where a redirect goes: a literal path, a named route of \<^verbatim>\<open>urls.py\<close> with its
  keyword arguments, the login page (for an anonymous request to a protected view), or
  the configured page that follows a login.
\<close>

datatype target = Path string | Named string "(string \<times> nat) list" | LoginUrl | LoginRedirectUrl

datatype response =
    Render string "(string \<times> ctx_value) list"
  | Redirect target

text \<open>The exceptions a view can leave unhandled.\<close>

datatype error = DoesNotExist | MultipleObjectsReturned | Http404

section \<open>What the framework supplies\<close>

text \<open>
  The views delegate the cleaning of submitted field values, the validation of user
  names and passwords and the verification of credentials to the web framework, whose
  code and settings are not part of this application. These are parameters of the
  model; every result below holds for any choice of them.
  \<^item> \<open>CharField_clean n v\<close>: the cleaned value of a required text field of maximal
    length \<open>n\<close> submitted as \<open>v\<close> (\<open>None\<close> when the key is absent), or \<open>None\<close> when it
    is rejected;
  \<^item> \<open>IntegerField_clean\<close>, \<open>DateField_clean\<close>: the same for a required integer or
    date field;
  \<^item> \<open>username_clean us v\<close>: the cleaned user name, given the user names \<open>us\<close> already
    taken;
  \<^item> \<open>validate_password\<close>: the configured password validators;
  \<^item> \<open>authenticate\<close>: the user whose credentials the login form data carries.
\<close>

record framework =
  CharField_clean :: "nat \<Rightarrow> string option \<Rightarrow> string option"
  IntegerField_clean :: "string option \<Rightarrow> int option"
  DateField_clean :: "string option \<Rightarrow> date option"
  username_clean :: "string list \<Rightarrow> string option \<Rightarrow> string option"
  validate_password :: "string \<Rightarrow> bool"
  authenticate :: "User list \<Rightarrow> QueryDict \<Rightarrow> nat option"

section \<open>Queries\<close>

text \<open>
  \<^verbatim>\<open>Model.objects.get(...)\<close>: the single row matching the lookup; it raises
  \<^verbatim>\<open>DoesNotExist\<close> when no row matches and \<^verbatim>\<open>MultipleObjectsReturned\<close> when
  several do.
\<close>

definition objects_get :: "('a \<Rightarrow> bool) \<Rightarrow> 'a list \<Rightarrow> error + 'a" where
  "objects_get P rows =
     (case filter P rows of
        [] \<Rightarrow> Inl DoesNotExist
      | [x] \<Rightarrow> Inr x
      | _ \<Rightarrow> Inl MultipleObjectsReturned)"

text \<open>
  Dates compare as Python's \<^verbatim>\<open>datetime.date\<close> does: by year, then month, then day.
\<close>

fun date_le :: "date \<Rightarrow> date \<Rightarrow> bool" where
  "date_le (Date y m d) (Date y' m' d') =
     (y < y' \<or> (y = y' \<and> (m < m' \<or> (m = m' \<and> d \<le> d'))))"

definition date_less :: "date \<Rightarrow> date \<Rightarrow> bool" where
  "date_less a b = (date_le a b \<and> a \<noteq> b)"

text \<open>
  \<^verbatim>\<open>Feeding.Meta.ordering = ['-date']\<close>: every query for feedings that names no
  order of its own returns its rows by descending date.
\<close>

fun insert_by_date_desc :: "Feeding \<Rightarrow> Feeding list \<Rightarrow> Feeding list" where
  "insert_by_date_desc f [] = [f]"
| "insert_by_date_desc f (g # gs) =
     (if date_le (Feeding_date g) (Feeding_date f) then f # g # gs
      else g # insert_by_date_desc f gs)"

fun ordering_date_desc :: "Feeding list \<Rightarrow> Feeding list" where
  "ordering_date_desc [] = []"
| "ordering_date_desc (f # fs) = insert_by_date_desc f (ordering_date_desc fs)"

text \<open>\<^verbatim>\<open>Feeding.objects.all()\<close>.\<close>

definition Feeding_objects_all :: "db \<Rightarrow> Feeding list" where
  "Feeding_objects_all d = ordering_date_desc (feedings d)"

text \<open>
  \<^verbatim>\<open>cat.feedings.all()\<close>, the reverse accessor that
  \<^verbatim>\<open>related_name='feedings'\<close> gives a cat.
\<close>

definition Cat_feedings_all :: "db \<Rightarrow> Cat \<Rightarrow> Feeding list" where
  "Cat_feedings_all d c =
     ordering_date_desc (filter (\<lambda>f. Feeding_cat_id f = Cat_id c) (feedings d))"

text \<open>
  Deleting the cat with primary key \<open>pk\<close>. \<^verbatim>\<open>Feeding.cat\<close> is declared with
  \<^verbatim>\<open>on_delete=models.CASCADE\<close>, so the feedings that refer to the cat are deleted
  with it, as are its rows in the association table of \<^verbatim>\<open>Cat.toys\<close>.
\<close>

definition Cat_delete :: "nat \<Rightarrow> db \<Rightarrow> db" where
  "Cat_delete pk d =
     d\<lparr>feedings := filter (\<lambda>f. Feeding_cat_id f \<noteq> pk) (feedings d),
       cat_toys := filter (\<lambda>ct. fst ct \<noteq> pk) (cat_toys d),
       cats := filter (\<lambda>c. Cat_id c \<noteq> pk) (cats d)\<rparr>"

section \<open>Forms\<close>

text \<open>
  The model form that \<^verbatim>\<open>CatCreate\<close> derives from
  \<^verbatim>\<open>fields = ['name', 'breed', 'description', 'age']\<close>, with the lengths that
  \<^verbatim>\<open>models.py\<close> declares. The cleaned data, or \<open>None\<close> when a field is rejected.
  No other key of the submitted data is read.
\<close>

definition CatCreate_fields :: "string list" where
  "CatCreate_fields = [''name'', ''breed'', ''description'', ''age'']"

definition CatCreate_cleaned_data ::
  "framework \<Rightarrow> QueryDict \<Rightarrow> (string \<times> string \<times> string \<times> int) option" where
  "CatCreate_cleaned_data fw q =
     (case CharField_clean fw 100 (q ''name'') of None \<Rightarrow> None | Some n \<Rightarrow>
      (case CharField_clean fw 100 (q ''breed'') of None \<Rightarrow> None | Some b \<Rightarrow>
       (case CharField_clean fw 250 (q ''description'') of None \<Rightarrow> None | Some ds \<Rightarrow>
        (case IntegerField_clean fw (q ''age'') of None \<Rightarrow> None | Some a \<Rightarrow>
           Some (n, b, ds, a)))))"

text \<open>
  The model form of \<^verbatim>\<open>CatUpdate\<close>:
  \<^verbatim>\<open>fields = ['breed', 'description', 'age']\<close>.
\<close>

definition CatUpdate_fields :: "string list" where
  "CatUpdate_fields = [''breed'', ''description'', ''age'']"

definition CatUpdate_cleaned_data ::
  "framework \<Rightarrow> QueryDict \<Rightarrow> (string \<times> string \<times> int) option" where
  "CatUpdate_cleaned_data fw q =
     (case CharField_clean fw 100 (q ''breed'') of None \<Rightarrow> None | Some b \<Rightarrow>
      (case CharField_clean fw 250 (q ''description'') of None \<Rightarrow> None | Some ds \<Rightarrow>
       (case IntegerField_clean fw (q ''age'') of None \<Rightarrow> None | Some a \<Rightarrow>
          Some (b, ds, a))))"

text \<open>The model form of \<^verbatim>\<open>ToyCreate\<close>: \<^verbatim>\<open>fields = '__all__'\<close>, name and color.\<close>

definition ToyCreate_cleaned_data :: "framework \<Rightarrow> QueryDict \<Rightarrow> (string \<times> string) option" where
  "ToyCreate_cleaned_data fw q =
     (case CharField_clean fw 50 (q ''name'') of None \<Rightarrow> None | Some n \<Rightarrow>
      (case CharField_clean fw 20 (q ''color'') of None \<Rightarrow> None | Some c \<Rightarrow>
         Some (n, c)))"

text \<open>
  Modelled from the spec: \<^verbatim>\<open>FeedingForm\<close> of \<^verbatim>\<open>main_app/forms.py\<close>, which
  \<^verbatim>\<open>views.py\<close> imports; the file is not among the sources. The form "validates the
  submitted date and meal code": a form over the \<^verbatim>\<open>date\<close> and \<^verbatim>\<open>meal\<close> fields
  of \<^verbatim>\<open>Feeding\<close>, the meal being one of the codes of \<^verbatim>\<open>MEALS\<close>. An unbound form
  has no cleaned data.
\<close>

definition FeedingForm_cleaned_data :: "framework \<Rightarrow> form \<Rightarrow> (date \<times> string) option" where
  "FeedingForm_cleaned_data fw f =
     (if \<not> is_bound f then None
      else case DateField_clean fw (form_data f ''date'') of None \<Rightarrow> None | Some dt \<Rightarrow>
        (case form_data f ''meal'' of None \<Rightarrow> None | Some m \<Rightarrow>
           if m \<in> set (map fst MEALS) then Some (dt, m) else None))"

definition FeedingForm_is_valid :: "framework \<Rightarrow> form \<Rightarrow> bool" where
  "FeedingForm_is_valid fw f = (FeedingForm_cleaned_data fw f \<noteq> None)"

text \<open>
  The framework's \<^verbatim>\<open>UserCreationForm\<close>: the errors of a form, as pairs of a field
  and an error code. An unbound form has none. The user name must be accepted; both
  password fields are required; the confirmation must repeat the password, which must
  pass the configured validators.
\<close>

definition UserCreationForm_errors :: "framework \<Rightarrow> db \<Rightarrow> form \<Rightarrow> (string \<times> string) list" where
  "UserCreationForm_errors fw d f =
     (if \<not> is_bound f then []
      else
        (case username_clean fw (map User_username (users d)) (form_data f ''username'') of
           None \<Rightarrow> [(''username'', ''invalid'')] | Some _ \<Rightarrow> [])
        @ (case form_data f ''password1'' of
             None \<Rightarrow> [(''password1'', ''required'')]
           | Some p1 \<Rightarrow> if p1 = [] then [(''password1'', ''required'')] else [])
        @ (case form_data f ''password2'' of
             None \<Rightarrow> [(''password2'', ''required'')]
           | Some p2 \<Rightarrow>
               if p2 = [] then [(''password2'', ''required'')]
               else if form_data f ''password1'' \<noteq> None \<and> form_data f ''password1'' \<noteq> Some []
                       \<and> form_data f ''password1'' \<noteq> Some p2
                 then [(''password2'', ''password_mismatch'')]
               else if \<not> validate_password fw p2 then [(''password2'', ''password_invalid'')]
               else []))"

definition UserCreationForm_is_valid :: "framework \<Rightarrow> db \<Rightarrow> form \<Rightarrow> bool" where
  "UserCreationForm_is_valid fw d f = (is_bound f \<and> UserCreationForm_errors fw d f = [])"

text \<open>
  \<^verbatim>\<open>form.save()\<close> of a valid \<^verbatim>\<open>UserCreationForm\<close>: a new user row with the
  cleaned user name and the password. (The framework stores a hash of the password;
  the model keeps the password itself.)
\<close>

definition UserCreationForm_save :: "framework \<Rightarrow> db \<Rightarrow> form \<Rightarrow> db \<times> User" where
  "UserCreationForm_save fw d f =
     (let user = \<lparr>User_id = next_user_id d,
                  User_username =
                    (case username_clean fw (map User_username (users d)) (form_data f ''username'') of
                       None \<Rightarrow> [] | Some n \<Rightarrow> n),
                  User_password = (case form_data f ''password1'' of None \<Rightarrow> [] | Some p \<Rightarrow> p)\<rparr>
      in (d\<lparr>users := users d @ [user], next_user_id := Suc (next_user_id d)\<rparr>, user))"

section \<open>Views (main\_app/views.py)\<close>

text \<open>
  \<^verbatim>\<open>cat_index\<close>, under \<^verbatim>\<open>@login_required\<close>:
  \<^verbatim>\<open>cats = Cat.objects.filter(user=request.user)\<close>, rendered into
  \<^verbatim>\<open>cats/index.html\<close>.
\<close>

definition cat_index :: "db \<Rightarrow> request \<Rightarrow> response" where
  "cat_index d r =
     (case request_user r of
        None \<Rightarrow> Redirect LoginUrl
      | Some u \<Rightarrow>
          Render ''cats/index.html''
            [(''cats'', CatsV (filter (\<lambda>c. Cat_user c = u) (cats d)))])"

text \<open>
  \<^verbatim>\<open>Home(LoginView)\<close> with \<^verbatim>\<open>template_name = 'home.html'\<close>: the framework's
  login view. It writes to none of the tables; a successful login puts the user into
  the session.
\<close>

definition Home :: "framework \<Rightarrow> db \<Rightarrow> request \<Rightarrow> db \<times> request \<times> response" where
  "Home fw d r =
     (case request_method r of
        GET \<Rightarrow> (d, r, Render ''home.html'' [(''form'', FormV (Form AuthenticationForm None))])
      | POST \<Rightarrow>
          (case authenticate fw (users d) (request_POST r) of
             None \<Rightarrow>
               (d, r, Render ''home.html''
                        [(''form'', FormV (Form AuthenticationForm (Some (request_POST r))))])
           | Some u \<Rightarrow> (d, r\<lparr>request_user := Some u\<rparr>, Redirect LoginRedirectUrl)))"

definition homeTwo :: "request \<Rightarrow> response" where
  "homeTwo r = Render ''home.html'' []"

definition about :: "request \<Rightarrow> response" where
  "about r = Render ''about.html'' []"

text \<open>
  \<^verbatim>\<open>CatCreate(LoginRequiredMixin, CreateView)\<close>. A GET shows the empty form. A POST
  binds the form to the submitted data; an invalid form is shown again; for a valid one
  \<^verbatim>\<open>form_valid\<close> runs: \<^verbatim>\<open>form.instance.user = self.request.user\<close>, then the
  inherited \<^verbatim>\<open>form_valid\<close> saves the instance and redirects to its
  \<^verbatim>\<open>get_absolute_url()\<close>, the route \<^verbatim>\<open>cat-detail\<close> of its id.
\<close>

definition CatCreate :: "framework \<Rightarrow> db \<Rightarrow> request \<Rightarrow> db \<times> (error + response)" where
  "CatCreate fw d r =
     (case request_user r of
        None \<Rightarrow> (d, Inr (Redirect LoginUrl))
      | Some u \<Rightarrow>
          (case request_method r of
             GET \<Rightarrow>
               (d, Inr (Render ''main_app/cat_form.html''
                          [(''form'', FormV (Form (ModelForm CatCreate_fields) None))]))
           | POST \<Rightarrow>
               (case CatCreate_cleaned_data fw (request_POST r) of
                  None \<Rightarrow>
                    (d, Inr (Render ''main_app/cat_form.html''
                               [(''form'', FormV (Form (ModelForm CatCreate_fields)
                                                     (Some (request_POST r))))]))
                | Some (n, b, ds, a) \<Rightarrow>
                    (let instance = \<lparr>Cat_id = next_cat_id d, Cat_name = n, Cat_breed = b,
                                      Cat_description = ds, Cat_age = a, Cat_user = u\<rparr>
                     in (d\<lparr>cats := cats d @ [instance], next_cat_id := Suc (next_cat_id d)\<rparr>,
                         Inr (Redirect (Named ''cat-detail'' [(''cat_id'', Cat_id instance)])))))))"

text \<open>
  The object of an update or delete view: the row whose primary key is the \<open>pk\<close> of
  the URL, looked up in the whole table (these views declare \<^verbatim>\<open>model = Cat\<close> and no
  queryset of their own). The generic views turn \<^verbatim>\<open>DoesNotExist\<close> into
  \<^verbatim>\<open>Http404\<close>.
\<close>

definition get_object :: "nat \<Rightarrow> db \<Rightarrow> error + Cat" where
  "get_object pk d =
     (case objects_get (\<lambda>c. Cat_id c = pk) (cats d) of
        Inl DoesNotExist \<Rightarrow> Inl Http404
      | Inl e \<Rightarrow> Inl e
      | Inr obj \<Rightarrow> Inr obj)"

text \<open>
  \<^verbatim>\<open>CatUpdate(LoginRequiredMixin, UpdateView)\<close> with
  \<^verbatim>\<open>fields = ['breed', 'description', 'age']\<close>. A valid POST writes the cleaned
  values of these three fields into the object and saves it; the redirect goes to the
  object's \<^verbatim>\<open>get_absolute_url()\<close>.
\<close>

definition CatUpdate :: "framework \<Rightarrow> db \<Rightarrow> request \<Rightarrow> nat \<Rightarrow> db \<times> (error + response)" where
  "CatUpdate fw d r pk =
     (case request_user r of
        None \<Rightarrow> (d, Inr (Redirect LoginUrl))
      | Some u \<Rightarrow>
          (case get_object pk d of
             Inl e \<Rightarrow> (d, Inl e)
           | Inr obj \<Rightarrow>
               (case request_method r of
                  GET \<Rightarrow>
                    (d, Inr (Render ''main_app/cat_form.html''
                               [(''object'', CatV obj),
                                (''form'', FormV (Form (ModelForm CatUpdate_fields) None))]))
                | POST \<Rightarrow>
                    (case CatUpdate_cleaned_data fw (request_POST r) of
                       None \<Rightarrow>
                         (d, Inr (Render ''main_app/cat_form.html''
                                    [(''object'', CatV obj),
                                     (''form'', FormV (Form (ModelForm CatUpdate_fields)
                                                          (Some (request_POST r))))]))
                     | Some (b, ds, a) \<Rightarrow>
                         (let obj' = obj\<lparr>Cat_breed := b, Cat_description := ds, Cat_age := a\<rparr>
                          in (d\<lparr>cats := map (\<lambda>c. if Cat_id c = pk then obj' else c) (cats d)\<rparr>,
                              Inr (Redirect (Named ''cat-detail'' [(''cat_id'', Cat_id obj')]))))))))"

text \<open>
  \<^verbatim>\<open>CatDelete(LoginRequiredMixin, DeleteView)\<close> with
  \<^verbatim>\<open>success_url = '/cats/'\<close>. A GET asks for confirmation; a POST deletes the
  object and redirects.
\<close>

definition CatDelete :: "db \<Rightarrow> request \<Rightarrow> nat \<Rightarrow> db \<times> (error + response)" where
  "CatDelete d r pk =
     (case request_user r of
        None \<Rightarrow> (d, Inr (Redirect LoginUrl))
      | Some u \<Rightarrow>
          (case get_object pk d of
             Inl e \<Rightarrow> (d, Inl e)
           | Inr obj \<Rightarrow>
               (case request_method r of
                  GET \<Rightarrow>
                    (d, Inr (Render ''main_app/cat_confirm_delete.html'' [(''object'', CatV obj)]))
                | POST \<Rightarrow> (Cat_delete (Cat_id obj) d, Inr (Redirect (Path ''/cats/''))))))"

text \<open>
  \<^verbatim>\<open>cat_detail\<close>, under \<^verbatim>\<open>@login_required\<close>:
  \<^verbatim>\<open>cat = Cat.objects.get(id=cat_id, user=request.user)\<close>, not caught, then the
  detail template with the cat and an unbound \<^verbatim>\<open>FeedingForm()\<close>.
\<close>

definition cat_detail :: "db \<Rightarrow> request \<Rightarrow> nat \<Rightarrow> error + response" where
  "cat_detail d r cat_id =
     (case request_user r of
        None \<Rightarrow> Inr (Redirect LoginUrl)
      | Some u \<Rightarrow>
          (case objects_get (\<lambda>c. Cat_id c = cat_id \<and> Cat_user c = u) (cats d) of
             Inl e \<Rightarrow> Inl e
           | Inr cat \<Rightarrow>
               Inr (Render ''cats/detail.html''
                      [(''cat'', CatV cat), (''feeding_form'', FormV (Form FeedingForm None))])))"

text \<open>
  \<^verbatim>\<open>add_feeding\<close>, under \<^verbatim>\<open>@login_required\<close>: the same lookup of the cat, then
  \<^verbatim>\<open>form = FeedingForm(request.POST)\<close>; if the form is valid the new feeding gets
  \<^verbatim>\<open>cat_id\<close> and is saved; in either case the view redirects to \<^verbatim>\<open>cat-detail\<close>.
  The view does not look at the request method.
\<close>

definition add_feeding :: "framework \<Rightarrow> db \<Rightarrow> request \<Rightarrow> nat \<Rightarrow> db \<times> (error + response)" where
  "add_feeding fw d r cat_id =
     (case request_user r of
        None \<Rightarrow> (d, Inr (Redirect LoginUrl))
      | Some u \<Rightarrow>
          (case objects_get (\<lambda>c. Cat_id c = cat_id \<and> Cat_user c = u) (cats d) of
             Inl e \<Rightarrow> (d, Inl e)
           | Inr cat \<Rightarrow>
               (let form = Form FeedingForm (Some (request_POST r));
                    d' = (if FeedingForm_is_valid fw form
                          then (case FeedingForm_cleaned_data fw form of
                                  Some (dt, m) \<Rightarrow>
                                    (let new_feeding =
                                           \<lparr>Feeding_id = next_feeding_id d, Feeding_date = dt,
                                            Feeding_meal = m, Feeding_cat_id = cat_id\<rparr>
                                     in d\<lparr>feedings := feedings d @ [new_feeding],
                                           next_feeding_id := Suc (next_feeding_id d)\<rparr>)
                                | None \<Rightarrow> d)
                          else d)
                in (d', Inr (Redirect (Named ''cat-detail'' [(''cat_id'', cat_id)]))))))"

text \<open>\<^verbatim>\<open>toy_detail\<close>: \<^verbatim>\<open>toy = Toy.objects.get(id=pk)\<close>, not caught.\<close>

definition toy_detail :: "db \<Rightarrow> request \<Rightarrow> nat \<Rightarrow> error + response" where
  "toy_detail d r pk =
     (case request_user r of
        None \<Rightarrow> Inr (Redirect LoginUrl)
      | Some u \<Rightarrow>
          (case objects_get (\<lambda>t. Toy_id t = pk) (toys d) of
             Inl e \<Rightarrow> Inl e
           | Inr toy \<Rightarrow> Inr (Render ''main_app/toy_detail.html'' [(''toy'', ToyV toy)])))"

text \<open>
  \<^verbatim>\<open>signup\<close>. The view has no login requirement. \<open>signup_render\<close> is the tail of
  the function, reached by a GET with \<^verbatim>\<open>error_message = ''\<close> and by an invalid POST
  with the error message set: \<^verbatim>\<open>form = UserCreationForm()\<close> replaces whatever form
  there was, and the template is rendered with the form and the message.
  \<^verbatim>\<open>login(request, user)\<close> puts the new user into the session.
\<close>

definition signup_render :: "db \<Rightarrow> request \<Rightarrow> string \<Rightarrow> db \<times> request \<times> response" where
  "signup_render d r error_message =
     (let form = Form UserCreationForm None
      in (d, r, Render ''signup.html''
                  [(''form'', FormV form), (''error_message'', StrV error_message)]))"

definition signup :: "framework \<Rightarrow> db \<Rightarrow> request \<Rightarrow> db \<times> request \<times> response" where
  "signup fw d r =
     (if request_method r = POST
      then (let form = Form UserCreationForm (Some (request_POST r))
            in if UserCreationForm_is_valid fw d form
               then (let (d', user) = UserCreationForm_save fw d form
                     in (d', r\<lparr>request_user := Some (User_id user)\<rparr>,
                         Redirect (Named ''cat-index'' [])))
               else signup_render d r ''Invalid sign up - try again'')
      else signup_render d r [])"

text \<open>
  \<^verbatim>\<open>ToyCreate(LoginRequiredMixin, CreateView)\<close> with \<^verbatim>\<open>fields = '__all__'\<close>, and
  \<^verbatim>\<open>ToyList(LoginRequiredMixin, ListView)\<close>. (\<^verbatim>\<open>ToyDetail\<close>, \<^verbatim>\<open>ToyUpdate\<close> and
  \<^verbatim>\<open>ToyDelete\<close> are declared but no route of \<^verbatim>\<open>urls.py\<close> leads to them.)
\<close>

definition ToyCreate :: "framework \<Rightarrow> db \<Rightarrow> request \<Rightarrow> db \<times> (error + response)" where
  "ToyCreate fw d r =
     (case request_user r of
        None \<Rightarrow> (d, Inr (Redirect LoginUrl))
      | Some u \<Rightarrow>
          (case request_method r of
             GET \<Rightarrow>
               (d, Inr (Render ''main_app/toy_form.html''
                          [(''form'', FormV (Form (ModelForm [''name'', ''color'']) None))]))
           | POST \<Rightarrow>
               (case ToyCreate_cleaned_data fw (request_POST r) of
                  None \<Rightarrow>
                    (d, Inr (Render ''main_app/toy_form.html''
                               [(''form'', FormV (Form (ModelForm [''name'', ''color''])
                                                     (Some (request_POST r))))]))
                | Some (n, c) \<Rightarrow>
                    (let instance = \<lparr>Toy_id = next_toy_id d, Toy_name = n, Toy_color = c\<rparr>
                     in (d\<lparr>toys := toys d @ [instance], next_toy_id := Suc (next_toy_id d)\<rparr>,
                         Inr (Redirect (Named ''toy-detail'' [(''pk'', Toy_id instance)])))))))"

definition ToyList :: "db \<Rightarrow> request \<Rightarrow> response" where
  "ToyList d r =
     (case request_user r of
        None \<Rightarrow> Redirect LoginUrl
      | Some u \<Rightarrow> Render ''main_app/toy_list.html'' [(''toy_list'', ToysV (toys d))])"

section \<open>Routing (main\_app/urls.py)\<close>

text \<open>
  The routes of \<^verbatim>\<open>urlpatterns\<close>, each with the integer its path captures, and the
  effect on the database of serving a request on a route. A request whose view raises
  leaves the database as the view left it, and every view here raises before it writes.
\<close>

datatype route =
    R_home
  | R_home2
  | R_about
  | R_cat_index
  | R_cat_detail nat
  | R_cat_create
  | R_cat_update nat
  | R_cat_delete nat
  | R_add_feeding nat
  | R_toy_create
  | R_toy_detail nat
  | R_toy_index
  | R_signup

fun serve :: "framework \<Rightarrow> db \<Rightarrow> route \<times> request \<Rightarrow> db" where
  "serve fw d (R_home, r) = fst (Home fw d r)"
| "serve fw d (R_home2, r) = d"
| "serve fw d (R_about, r) = d"
| "serve fw d (R_cat_index, r) = d"
| "serve fw d (R_cat_detail cat_id, r) = d"
| "serve fw d (R_cat_create, r) = fst (CatCreate fw d r)"
| "serve fw d (R_cat_update pk, r) = fst (CatUpdate fw d r pk)"
| "serve fw d (R_cat_delete pk, r) = fst (CatDelete d r pk)"
| "serve fw d (R_add_feeding cat_id, r) = fst (add_feeding fw d r cat_id)"
| "serve fw d (R_toy_create, r) = fst (ToyCreate fw d r)"
| "serve fw d (R_toy_detail pk, r) = d"
| "serve fw d (R_toy_index, r) = d"
| "serve fw d (R_signup, r) = fst (signup fw d r)"

text \<open>The database after a sequence of requests.\<close>

definition serve_all :: "framework \<Rightarrow> db \<Rightarrow> (route \<times> request) list \<Rightarrow> db" where
  "serve_all fw d rs = foldl (serve fw) d rs"

text \<open>The database of a fresh installation.\<close>

definition empty_db :: db where
  "empty_db = \<lparr>users = [], cats = [], feedings = [], toys = [], cat_toys = [],
               next_user_id = 1, next_cat_id = 1, next_feeding_id = 1, next_toy_id = 1\<rparr>"

text \<open>No feeding refers to a cat that is not in the table.\<close>

definition no_orphans :: "db \<Rightarrow> bool" where
  "no_orphans d = (\<forall>f \<in> set (feedings d). \<exists>c \<in> set (cats d). Cat_id c = Feeding_cat_id f)"

section \<open>Invariants of the tables\<close>

text \<open>
  The order that \<^verbatim>\<open>ordering = ['-date']\<close> asks for: \<open>f\<close> may stand before \<open>g\<close>
  when the date of \<open>f\<close> is not earlier than that of \<open>g\<close>.
\<close>

abbreviation later_first :: "Feeding \<Rightarrow> Feeding \<Rightarrow> bool" where
  "later_first f g \<equiv> date_le (Feeding_date g) (Feeding_date f)"

text \<open>
  \<^verbatim>\<open>Cat.id\<close> is the primary key: no two rows of the table share an id, and the
  counter is above every id in use.
\<close>

definition pk_unique :: "db \<Rightarrow> bool" where
  "pk_unique d = (distinct (map Cat_id (cats d)) \<and> (\<forall>c \<in> set (cats d). Cat_id c < next_cat_id d))"

section \<open>Example data\<close>

text \<open>
  An instance of the framework parameters on which the model can be run: text fields
  accept a non-empty string within the length limit, integers are written in decimal
  digits, dates as \<^verbatim>\<open>YYYY-MM-DD\<close>, a user name must be new, a password has at least
  eight characters.
\<close>

definition digit_of :: "char \<Rightarrow> nat option" where
  "digit_of c =
     map_of [(CHR ''0'', 0), (CHR ''1'', 1), (CHR ''2'', 2), (CHR ''3'', 3), (CHR ''4'', 4),
             (CHR ''5'', 5), (CHR ''6'', 6), (CHR ''7'', 7), (CHR ''8'', 8), (CHR ''9'', 9)] c"

fun nat_of_digits :: "nat \<Rightarrow> string \<Rightarrow> nat option" where
  "nat_of_digits acc [] = Some acc"
| "nat_of_digits acc (c # cs) =
     (case digit_of c of None \<Rightarrow> None | Some v \<Rightarrow> nat_of_digits (10 * acc + v) cs)"

definition example_int :: "string option \<Rightarrow> int option" where
  "example_int v =
     (case v of
        None \<Rightarrow> None
      | Some s \<Rightarrow> if s = [] then None else map_option int (nat_of_digits 0 s))"

definition example_date :: "string option \<Rightarrow> date option" where
  "example_date v =
     (case v of
        None \<Rightarrow> None
      | Some s \<Rightarrow>
          if length s = 10 \<and> s ! 4 = CHR ''-'' \<and> s ! 7 = CHR ''-''
          then (case (nat_of_digits 0 (take 4 s), nat_of_digits 0 (take 2 (drop 5 s)),
                      nat_of_digits 0 (drop 8 s)) of
                  (Some y, Some m, Some d) \<Rightarrow>
                    if 1 \<le> m \<and> m \<le> 12 \<and> 1 \<le> d \<and> d \<le> 31 then Some (Date y m d) else None
                | _ \<Rightarrow> None)
          else None)"

definition example_framework :: framework where
  "example_framework =
     \<lparr>CharField_clean =
        (\<lambda>n v. case v of None \<Rightarrow> None
                | Some s \<Rightarrow> if s = [] \<or> n < length s then None else Some s),
      IntegerField_clean = example_int,
      DateField_clean = example_date,
      username_clean =
        (\<lambda>taken v. case v of None \<Rightarrow> None
                    | Some s \<Rightarrow> if s = [] \<or> 150 < length s \<or> s \<in> set taken then None else Some s),
      validate_password = (\<lambda>p. 8 \<le> length p),
      authenticate =
        (\<lambda>us q. case (q ''username'', q ''password'') of
                   (Some n, Some p) \<Rightarrow>
                     (case filter (\<lambda>u. User_username u = n \<and> User_password u = p) us of
                        [] \<Rightarrow> None | u # _ \<Rightarrow> Some (User_id u))
                 | _ \<Rightarrow> None)\<rparr>"

text \<open>
  Two users; user 1 owns the cat Whiskers, which has two feedings, and user 2 owns the
  cat Tom, which has one.
\<close>

definition whiskers :: Cat where
  "whiskers = \<lparr>Cat_id = 1, Cat_name = ''Whiskers'', Cat_breed = ''Tabby'',
               Cat_description = ''A cat'', Cat_age = 2, Cat_user = 1\<rparr>"

definition tom :: Cat where
  "tom = \<lparr>Cat_id = 2, Cat_name = ''Tom'', Cat_breed = ''Persian'',
          Cat_description = ''Another cat'', Cat_age = 5, Cat_user = 2\<rparr>"

definition example_db :: db where
  "example_db =
     \<lparr>users = [\<lparr>User_id = 1, User_username = ''a'', User_password = ''password-a''\<rparr>,
               \<lparr>User_id = 2, User_username = ''b'', User_password = ''password-b''\<rparr>],
      cats = [whiskers, tom],
      feedings = [\<lparr>Feeding_id = 1, Feeding_date = Date 2023 12 31, Feeding_meal = ''D'',
                   Feeding_cat_id = 1\<rparr>,
                  \<lparr>Feeding_id = 2, Feeding_date = Date 2024 1 1, Feeding_meal = ''B'',
                   Feeding_cat_id = 1\<rparr>,
                  \<lparr>Feeding_id = 3, Feeding_date = Date 2024 1 1, Feeding_meal = ''L'',
                   Feeding_cat_id = 2\<rparr>],
      toys = [], cat_toys = [],
      next_user_id = 3, next_cat_id = 3, next_feeding_id = 4, next_toy_id = 1\<rparr>"

text \<open>A POST by a logged-in user, a cat-create submission that carries an owner value,
  and a signup submission whose password confirmation does not repeat the password.\<close>

definition post_request :: "nat \<Rightarrow> (string \<times> string) list \<Rightarrow> request" where
  "post_request u kvs = \<lparr>request_method = POST, request_user = Some u, request_POST = map_of kvs\<rparr>"

definition felix_request :: request where
  "felix_request =
     post_request 1 [(''name'', ''Felix''), (''breed'', ''Manx''), (''description'', ''New''),
                     (''age'', ''3''), (''user'', ''2'')]"

definition mismatch_request :: request where
  "mismatch_request =
     \<lparr>request_method = POST, request_user = None,
      request_POST = map_of [(''username'', ''c''), (''password1'', ''password-c''),
                             (''password2'', ''password-d'')]\<rparr>"

section \<open>Lemmas about queries and forms\<close>

lemma objects_get_none:
  "\<not> (\<exists>x \<in> set rows. P x) \<Longrightarrow> objects_get P rows = Inl DoesNotExist"
  by (simp add: objects_get_def filter_empty_conv)

lemma filter_pk_unique:
  "distinct (map key rows) \<Longrightarrow> x \<in> set rows \<Longrightarrow> filter (\<lambda>y. key y = key x) rows = [x]"
proof (induction rows)
  case Nil
  then show ?case by simp
next
  case (Cons y ys)
  show ?case
  proof (cases "y = x")
    case True
    with Cons.prems have "key x \<notin> key ` set ys" by simp
    then have "\<forall>z \<in> set ys. key z \<noteq> key x" by (metis imageI)
    then have "filter (\<lambda>z. key z = key x) ys = []" by (simp add: filter_empty_conv)
    with True show ?thesis by simp
  next
    case False
    with Cons.prems have "x \<in> set ys" "key y \<noteq> key x" by auto
    with Cons show ?thesis by simp
  qed
qed

lemma objects_get_pk:
  assumes "distinct (map Cat_id cs)" "c \<in> set cs"
  shows "objects_get (\<lambda>x. Cat_id x = Cat_id c) cs = Inr c"
  using filter_pk_unique [OF assms] by (simp add: objects_get_def)

lemma objects_get_owned:
  assumes "distinct (map Cat_id cs)" "c \<in> set cs" "Cat_user c = u"
  shows "objects_get (\<lambda>x. Cat_id x = Cat_id c \<and> Cat_user x = u) cs = Inr c"
proof -
  have "filter (\<lambda>x. Cat_id x = Cat_id c \<and> Cat_user x = u) cs
        = filter (\<lambda>x. Cat_user x = u) (filter (\<lambda>x. Cat_id x = Cat_id c) cs)"
    by (simp add: conj_commute)
  also have "\<dots> = [c]" using filter_pk_unique [OF assms(1,2)] assms(3) by simp
  finally show ?thesis by (simp add: objects_get_def)
qed

lemma objects_get_Inr:
  "objects_get P rows = Inr x \<Longrightarrow> filter P rows = [x]"
  by (auto simp: objects_get_def split: list.splits)

lemma objects_get_member: "objects_get P rows = Inr x \<Longrightarrow> x \<in> set rows \<and> P x"
proof -
  assume "objects_get P rows = Inr x"
  then have "filter P rows = [x]" by (rule objects_get_Inr)
  then have "x \<in> set (filter P rows)" by simp
  then show ?thesis by simp
qed

lemma get_object_pk:
  "distinct (map Cat_id (cats d)) \<Longrightarrow> c \<in> set (cats d) \<Longrightarrow> get_object (Cat_id c) d = Inr c"
  by (simp add: get_object_def objects_get_pk)

lemma get_object_Inr:
  "get_object pk d = Inr obj \<Longrightarrow> filter (\<lambda>c. Cat_id c = pk) (cats d) = [obj]"
  by (auto simp: get_object_def dest: objects_get_Inr split: sum.splits error.splits)

lemma get_object_Cat_id: "get_object pk d = Inr obj \<Longrightarrow> Cat_id obj = pk"
proof -
  assume "get_object pk d = Inr obj"
  then have "filter (\<lambda>c. Cat_id c = pk) (cats d) = [obj]" by (rule get_object_Inr)
  then have "obj \<in> set (filter (\<lambda>c. Cat_id c = pk) (cats d))" by simp
  then show ?thesis by simp
qed

lemma get_object_only:
  assumes "get_object pk d = Inr obj" "c \<in> set (cats d)" "Cat_id c = pk"
  shows "c = obj"
proof -
  from assms(1) have "filter (\<lambda>c. Cat_id c = pk) (cats d) = [obj]" by (rule get_object_Inr)
  moreover from assms(2,3) have "c \<in> set (filter (\<lambda>c. Cat_id c = pk) (cats d))" by simp
  ultimately show ?thesis by simp
qed

text \<open>The model forms read only the keys of their own fields.\<close>

lemma CatCreate_cleaned_data_other_key:
  "k \<notin> set CatCreate_fields \<Longrightarrow>
     CatCreate_cleaned_data fw (q(k := v)) = CatCreate_cleaned_data fw q"
proof -
  assume "k \<notin> set CatCreate_fields"
  then have "(q(k := v)) ''name'' = q ''name''" "(q(k := v)) ''breed'' = q ''breed''"
    "(q(k := v)) ''description'' = q ''description''" "(q(k := v)) ''age'' = q ''age''"
    by (auto simp: CatCreate_fields_def)
  then show ?thesis unfolding CatCreate_cleaned_data_def by (simp only:)
qed

lemma CatUpdate_cleaned_data_other_key:
  "k \<notin> set CatUpdate_fields \<Longrightarrow>
     CatUpdate_cleaned_data fw (q(k := v)) = CatUpdate_cleaned_data fw q"
proof -
  assume "k \<notin> set CatUpdate_fields"
  then have "(q(k := v)) ''breed'' = q ''breed''"
    "(q(k := v)) ''description'' = q ''description''" "(q(k := v)) ''age'' = q ''age''"
    by (auto simp: CatUpdate_fields_def)
  then show ?thesis unfolding CatUpdate_cleaned_data_def by (simp only:)
qed

text \<open>What the feeding form rejects.\<close>

lemma FeedingForm_invalid_meal:
  "form_data f ''meal'' \<notin> {Some ''B'', Some ''L'', Some ''D''} \<Longrightarrow> \<not> FeedingForm_is_valid fw f"
  by (auto simp: FeedingForm_is_valid_def FeedingForm_cleaned_data_def MEALS_def
           split: option.splits)

lemma FeedingForm_empty_POST:
  "\<not> FeedingForm_is_valid fw (Form FeedingForm (Some Map.empty))"
  by (rule FeedingForm_invalid_meal) (simp add: Form_def)

lemma FeedingForm_bad_date:
  "DateField_clean fw (form_data f ''date'') = None \<Longrightarrow> \<not> FeedingForm_is_valid fw f"
  by (simp add: FeedingForm_is_valid_def FeedingForm_cleaned_data_def)

text \<open>What the signup form rejects, and the errors of an unbound form.\<close>

lemma UserCreationForm_password_mismatch:
  assumes "form_data f ''password1'' = Some p1" "form_data f ''password2'' = Some p2"
    and "p1 \<noteq> []" "p2 \<noteq> []" "p1 \<noteq> p2"
  shows "\<not> UserCreationForm_is_valid fw d f"
  using assms by (simp add: UserCreationForm_is_valid_def UserCreationForm_errors_def)

lemma UserCreationForm_unbound_no_errors:
  "UserCreationForm_errors fw d (Form UserCreationForm None) = []"
  by (simp add: UserCreationForm_errors_def Form_def)

text \<open>An update leaves the id, the name and the owner of every row as they were.\<close>

lemma CatUpdate_keeps_columns:
  "map (\<lambda>c. (Cat_id c, Cat_name c, Cat_user c)) (cats (fst (CatUpdate fw d r pk)))
     = map (\<lambda>c. (Cat_id c, Cat_name c, Cat_user c)) (cats d)"
proof (cases "get_object pk d")
  case (Inl e)
  then show ?thesis by (simp add: CatUpdate_def split: option.splits)
next
  case (Inr obj)
  have "\<forall>c \<in> set (cats d). Cat_id c = pk \<longrightarrow> c = obj"
    using get_object_only [OF Inr] by blast
  then have "map (\<lambda>c. (Cat_id c, Cat_name c, Cat_user c))
               (map (\<lambda>c. if Cat_id c = pk
                         then obj\<lparr>Cat_breed := b, Cat_description := ds, Cat_age := a\<rparr>
                         else c) (cats d))
             = map (\<lambda>c. (Cat_id c, Cat_name c, Cat_user c)) (cats d)" for b ds a
    by (induction "cats d") (auto simp: o_def)
  with Inr show ?thesis
    by (auto simp: CatUpdate_def Let_def split: option.splits http_method.splits)
qed

lemma CatUpdate_keeps_ids:
  "map Cat_id (cats (fst (CatUpdate fw d r pk))) = map Cat_id (cats d)"
proof -
  have "map fst (map (\<lambda>c. (Cat_id c, Cat_name c, Cat_user c)) (cats (fst (CatUpdate fw d r pk))))
        = map fst (map (\<lambda>c. (Cat_id c, Cat_name c, Cat_user c)) (cats d))"
    by (simp only: CatUpdate_keeps_columns)
  then show ?thesis by (simp add: o_def)
qed

section \<open>Lemmas about the example data\<close>

lemma example_db_simps:
  "cats example_db = [whiskers, tom]"
  "next_cat_id example_db = 3"
  "next_feeding_id example_db = 4"
  by (simp_all add: example_db_def)

lemma example_cats_simps:
  "Cat_id whiskers = 1" "Cat_user whiskers = 1" "Cat_id tom = 2" "Cat_user tom = 2"
  "Cat_name tom = ''Tom''"
  by (simp_all add: whiskers_def tom_def)

lemma example_db_distinct: "distinct (map Cat_id (cats example_db))"
  by (simp add: example_db_def whiskers_def tom_def)

lemma example_db_no_orphans: "no_orphans example_db"
  by (simp add: no_orphans_def example_db_def whiskers_def tom_def)

lemma post_request_simps:
  "request_user (post_request u kvs) = Some u"
  "request_method (post_request u kvs) = POST"
  "request_POST (post_request u kvs) = map_of kvs"
  by (simp_all add: post_request_def)

lemma example_CatCreate_cleaned:
  "CatCreate_cleaned_data example_framework
     (map_of [(''name'', ''Felix''), (''breed'', ''Manx''), (''description'', ''New''),
              (''age'', ''3''), (''user'', ''2'')])
   = Some (''Felix'', ''Manx'', ''New'', 3)"
  by (simp add: CatCreate_cleaned_data_def example_framework_def example_int_def digit_of_def)

lemma example_Cat_feedings_all:
  "Cat_feedings_all example_db whiskers =
     [\<lparr>Feeding_id = 2, Feeding_date = Date 2024 1 1, Feeding_meal = ''B'', Feeding_cat_id = 1\<rparr>,
      \<lparr>Feeding_id = 1, Feeding_date = Date 2023 12 31, Feeding_meal = ''D'', Feeding_cat_id = 1\<rparr>]"
  by (simp add: Cat_feedings_all_def example_db_def whiskers_def)

lemma mismatch_request_invalid:
  "\<not> UserCreationForm_is_valid fw d (Form UserCreationForm (Some (request_POST mismatch_request)))"
  by (rule UserCreationForm_password_mismatch [of _ "''password-c''" "''password-d''"])
     (simp_all add: mismatch_request_def Form_def)

section \<open>The order of feedings\<close>

lemma date_le_refl: "date_le a a"
  by (cases a) simp

lemma date_le_total: "date_le a b \<or> date_le b a"
  by (cases a; cases b) auto

lemma date_le_trans: "date_le a b \<Longrightarrow> date_le b c \<Longrightarrow> date_le a c"
  by (cases a; cases b; cases c) auto

lemma date_le_antisym: "date_le a b \<Longrightarrow> date_le b a \<Longrightarrow> a = b"
  by (cases a; cases b) auto

lemma set_insert_by_date_desc: "set (insert_by_date_desc f fs) = insert f (set fs)"
  by (induction fs) auto

lemma mset_insert_by_date_desc: "mset (insert_by_date_desc f fs) = add_mset f (mset fs)"
  by (induction fs) auto

lemma mset_ordering_date_desc: "mset (ordering_date_desc fs) = mset fs"
  by (induction fs) (auto simp: mset_insert_by_date_desc)

lemma sorted_insert_by_date_desc:
  "sorted_wrt later_first fs \<Longrightarrow> sorted_wrt later_first (insert_by_date_desc f fs)"
proof (induction fs)
  case Nil
  then show ?case by simp
next
  case (Cons g gs)
  show ?case
  proof (cases "date_le (Feeding_date g) (Feeding_date f)")
    case True
    have "\<forall>h \<in> set gs. later_first f h"
    proof
      fix h assume "h \<in> set gs"
      with Cons.prems have "date_le (Feeding_date h) (Feeding_date g)" by simp
      then show "later_first f h" using True by (rule date_le_trans)
    qed
    with True Cons.prems show ?thesis by simp
  next
    case False
    then have "date_le (Feeding_date f) (Feeding_date g)"
      using date_le_total by blast
    with False Cons show ?thesis by (auto simp: set_insert_by_date_desc)
  qed
qed

lemma sorted_ordering_date_desc: "sorted_wrt later_first (ordering_date_desc fs)"
  by (induction fs) (auto intro: sorted_insert_by_date_desc)

lemma later_first_position:
  assumes "sorted_wrt later_first fs" "i < length fs" "j < length fs"
    and "date_less (Feeding_date (fs ! j)) (Feeding_date (fs ! i))"
  shows "i < j"
proof (rule ccontr)
  assume "\<not> i < j"
  then consider "i = j" | "j < i" by linarith
  then show False
  proof cases
    case 1
    with assms(4) show False by (simp add: date_less_def)
  next
    case 2
    with assms(1,2) have "date_le (Feeding_date (fs ! i)) (Feeding_date (fs ! j))"
      by (simp add: sorted_wrt_iff_nth_less)
    with assms(4) show False by (auto simp: date_less_def dest: date_le_antisym)
  qed
qed

section \<open>Every request preserves the invariants\<close>

lemma no_orphans_Cat_delete: "no_orphans d \<Longrightarrow> no_orphans (Cat_delete pk d)"
  unfolding no_orphans_def Cat_delete_def by fastforce

lemma no_orphans_same_tables:
  "feedings d' = feedings d \<Longrightarrow> Cat_id ` set (cats d) \<subseteq> Cat_id ` set (cats d') \<Longrightarrow>
   no_orphans d \<Longrightarrow> no_orphans d'"
  unfolding no_orphans_def by (metis (no_types, lifting) image_iff subsetD)

lemma no_orphans_Home: "no_orphans d \<Longrightarrow> no_orphans (fst (Home fw d r))"
  by (simp add: Home_def split: http_method.splits option.splits)

lemma no_orphans_signup: "no_orphans d \<Longrightarrow> no_orphans (fst (signup fw d r))"
  by (auto simp: signup_def signup_render_def UserCreationForm_save_def Let_def no_orphans_def)

lemma no_orphans_ToyCreate: "no_orphans d \<Longrightarrow> no_orphans (fst (ToyCreate fw d r))"
  by (auto simp: ToyCreate_def Let_def no_orphans_def split: http_method.splits option.splits)

lemma no_orphans_CatCreate: "no_orphans d \<Longrightarrow> no_orphans (fst (CatCreate fw d r))"
  by (auto simp: CatCreate_def Let_def no_orphans_def split: http_method.splits option.splits)

lemma no_orphans_CatUpdate:
  assumes "no_orphans d"
  shows "no_orphans (fst (CatUpdate fw d r pk))"
proof -
  have f: "feedings (fst (CatUpdate fw d r pk)) = feedings d"
    by (simp add: CatUpdate_def Let_def split: http_method.splits option.splits sum.splits)
  have "map Cat_id (cats (fst (CatUpdate fw d r pk))) = map Cat_id (cats d)"
    by (rule CatUpdate_keeps_ids)
  then have "Cat_id ` set (cats d) \<subseteq> Cat_id ` set (cats (fst (CatUpdate fw d r pk)))"
    by (metis set_map subset_refl)
  from f this assms show ?thesis by (rule no_orphans_same_tables)
qed

lemma no_orphans_CatDelete: "no_orphans d \<Longrightarrow> no_orphans (fst (CatDelete d r pk))"
  by (simp add: CatDelete_def no_orphans_Cat_delete
           split: http_method.splits option.splits sum.splits)

lemma no_orphans_add_feeding:
  assumes "no_orphans d"
  shows "no_orphans (fst (add_feeding fw d r cat_id))"
proof (cases "request_user r")
  case None
  with assms show ?thesis by (simp add: add_feeding_def)
next
  case (Some u)
  show ?thesis
  proof (cases "objects_get (\<lambda>c. Cat_id c = cat_id \<and> Cat_user c = u) (cats d)")
    case (Inl e)
    with Some assms show ?thesis by (simp add: add_feeding_def)
  next
    case (Inr cat)
    then have "cat \<in> set (cats d)" "Cat_id cat = cat_id"
      using objects_get_member by fastforce+
    with Some Inr assms show ?thesis
      by (auto simp: add_feeding_def Let_def no_orphans_def split: option.splits)
  qed
qed

lemma no_orphans_serve: "no_orphans d \<Longrightarrow> no_orphans (serve fw d rr)"
proof -
  assume a: "no_orphans d"
  obtain rt r where rr: "rr = (rt, r)" by (cases rr)
  show ?thesis unfolding rr
    by (cases rt)
       (simp_all add: a no_orphans_Home no_orphans_signup no_orphans_ToyCreate
          no_orphans_CatCreate no_orphans_CatUpdate no_orphans_CatDelete no_orphans_add_feeding)
qed

lemma no_orphans_serve_all: "no_orphans d \<Longrightarrow> no_orphans (serve_all fw d rs)"
  unfolding serve_all_def
  by (induction rs arbitrary: d) (simp_all add: no_orphans_serve)

lemma no_orphans_empty_db: "no_orphans empty_db"
  by (simp add: no_orphans_def empty_db_def)

text \<open>
  The primary key stays unique, so the hypothesis \<open>distinct (map Cat_id (cats d))\<close> of
  the results below holds in every database the application can reach.
\<close>

lemma pk_unique_serve: "pk_unique d \<Longrightarrow> pk_unique (serve fw d rr)"
proof -
  assume a: "pk_unique d"
  obtain rt r where rr: "rr = (rt, r)" by (cases rr)
  have create: "pk_unique (fst (CatCreate fw d r))"
    using a by (auto simp: pk_unique_def CatCreate_def Let_def less_Suc_eq
                     split: http_method.splits option.splits)
  have upd_next: "next_cat_id (fst (CatUpdate fw d r pk)) = next_cat_id d" for pk
    by (simp add: CatUpdate_def Let_def split: http_method.splits option.splits sum.splits)
  have update: "pk_unique (fst (CatUpdate fw d r pk))" for pk
  proof -
    have ids: "Cat_id ` set (cats (fst (CatUpdate fw d r pk))) = Cat_id ` set (cats d)"
      by (metis CatUpdate_keeps_ids set_map)
    have "\<forall>c \<in> set (cats (fst (CatUpdate fw d r pk))). Cat_id c < next_cat_id d"
    proof
      fix c assume "c \<in> set (cats (fst (CatUpdate fw d r pk)))"
      then have "Cat_id c \<in> Cat_id ` set (cats d)" using ids by blast
      then show "Cat_id c < next_cat_id d" using a by (auto simp: pk_unique_def)
    qed
    with a show ?thesis
      unfolding pk_unique_def by (simp add: CatUpdate_keeps_ids upd_next)
  qed
  have delete: "pk_unique (fst (CatDelete d r pk))" for pk
    using a by (auto simp: pk_unique_def CatDelete_def Cat_delete_def distinct_map_filter
                     split: http_method.splits option.splits sum.splits)
  have feed: "pk_unique (fst (add_feeding fw d r cat_id))" for cat_id
    using a by (auto simp: pk_unique_def add_feeding_def Let_def
                     split: option.splits sum.splits)
  have toy: "pk_unique (fst (ToyCreate fw d r))"
    using a by (auto simp: pk_unique_def ToyCreate_def Let_def
                     split: http_method.splits option.splits)
  have sign: "pk_unique (fst (signup fw d r))"
    using a by (auto simp: pk_unique_def signup_def signup_render_def UserCreationForm_save_def Let_def)
  have home: "pk_unique (fst (Home fw d r))"
    using a by (simp add: Home_def split: http_method.splits option.splits)
  show ?thesis unfolding rr
    by (cases rt) (simp_all add: a create update delete feed toy sign home)
qed

lemma pk_unique_serve_all: "pk_unique d \<Longrightarrow> pk_unique (serve_all fw d rs)"
  unfolding serve_all_def
  by (induction rs arbitrary: d) (simp_all add: pk_unique_serve)

lemma pk_unique_empty_db: "pk_unique empty_db"
  by (simp add: pk_unique_def empty_db_def)

section \<open>Properties\<close>

text \<open>
  C1. For a request in user \<open>u\<close>'s session the cat list renders the index template
  with a list that contains a cat of the table if and only if its owner is \<open>u\<close>:
  every cat owned by \<open>u\<close>, and no cat owned by another user.
\<close>

theorem cat_index_owner_only:
  "\<exists>cs. cat_index d (r\<lparr>request_user := Some u\<rparr>) = Render ''cats/index.html'' [(''cats'', CatsV cs)]
        \<and> set cs = {c \<in> set (cats d). Cat_user c = u}"
  by (simp add: cat_index_def)

text \<open>
  C2. For a request of the authenticated user \<open>u\<close>, every cat that the create view
  adds to the table has owner \<open>u\<close>; a valid submission adds exactly one cat, built from
  the cleaned name, breed, description and age, with owner \<open>u\<close>; and adding, changing or
  removing any other key of the submitted data (an owner value among them) leaves the
  resulting database the same, so the client has no influence on the owner.
\<close>

theorem CatCreate_owner_is_session_user:
  assumes "request_user r = Some u"
  shows "(\<forall>c \<in> set (cats (fst (CatCreate fw d r))). c \<in> set (cats d) \<or> Cat_user c = u)
       \<and> (request_method r = POST \<and> CatCreate_cleaned_data fw (request_POST r) = Some (n, b, ds, a)
            \<longrightarrow> cats (fst (CatCreate fw d r)) =
                  cats d @ [\<lparr>Cat_id = next_cat_id d, Cat_name = n, Cat_breed = b,
                             Cat_description = ds, Cat_age = a, Cat_user = u\<rparr>])
       \<and> (k \<notin> set CatCreate_fields
            \<longrightarrow> fst (CatCreate fw d (r\<lparr>request_POST := (request_POST r)(k := v)\<rparr>))
                  = fst (CatCreate fw d r))"
proof (intro conjI impI)
  show "\<forall>c \<in> set (cats (fst (CatCreate fw d r))). c \<in> set (cats d) \<or> Cat_user c = u"
    using assms
    by (auto simp: CatCreate_def Let_def split: http_method.splits option.splits)
next
  assume "request_method r = POST \<and> CatCreate_cleaned_data fw (request_POST r) = Some (n, b, ds, a)"
  with assms show "cats (fst (CatCreate fw d r)) =
      cats d @ [\<lparr>Cat_id = next_cat_id d, Cat_name = n, Cat_breed = b,
                 Cat_description = ds, Cat_age = a, Cat_user = u\<rparr>]"
    by (simp add: CatCreate_def Let_def)
next
  assume "k \<notin> set CatCreate_fields"
  then have "CatCreate_cleaned_data fw ((request_POST r)(k := v))
             = CatCreate_cleaned_data fw (request_POST r)"
    by (rule CatCreate_cleaned_data_other_key)
  with assms show "fst (CatCreate fw d (r\<lparr>request_POST := (request_POST r)(k := v)\<rparr>))
                   = fst (CatCreate fw d r)"
    by (simp add: CatCreate_def Let_def split: http_method.splits option.splits)
qed

text \<open>
  The submission of user 1 that carries \<^verbatim>\<open>user=2\<close> creates a cat owned by user 1,
  as does the same submission without that key.
\<close>

theorem CatCreate_owner_is_session_user_witness:
  "request_user felix_request = Some 1
   \<and> request_method felix_request = POST
   \<and> ''user'' \<notin> set CatCreate_fields
   \<and> cats (fst (CatCreate example_framework example_db felix_request)) =
       [whiskers, tom,
        \<lparr>Cat_id = 3, Cat_name = ''Felix'', Cat_breed = ''Manx'', Cat_description = ''New'',
         Cat_age = 3, Cat_user = 1\<rparr>]
   \<and> fst (CatCreate example_framework example_db
            (felix_request\<lparr>request_POST := (request_POST felix_request)(''user'' := None)\<rparr>))
       = fst (CatCreate example_framework example_db felix_request)"
proof -
  have u: "request_user felix_request = Some 1"
    and m: "request_method felix_request = POST"
    by (simp_all add: felix_request_def post_request_def)
  have k: "''user'' \<notin> set CatCreate_fields"
    by (simp add: CatCreate_fields_def)
  have c: "CatCreate_cleaned_data example_framework (request_POST felix_request)
           = Some (''Felix'', ''Manx'', ''New'', 3)"
    using example_CatCreate_cleaned by (simp add: felix_request_def post_request_def)
  from CatCreate_owner_is_session_user
         [OF u, of example_framework example_db "''Felix''" "''Manx''" "''New''" 3 "''user''" None]
       m c k
  have "cats (fst (CatCreate example_framework example_db felix_request)) =
          cats example_db @ [\<lparr>Cat_id = next_cat_id example_db, Cat_name = ''Felix'',
            Cat_breed = ''Manx'', Cat_description = ''New'', Cat_age = 3, Cat_user = 1\<rparr>]"
    and "fst (CatCreate example_framework example_db
            (felix_request\<lparr>request_POST := (request_POST felix_request)(''user'' := None)\<rparr>))
       = fst (CatCreate example_framework example_db felix_request)"
    by blast+
  with u m k show ?thesis by (simp add: example_db_simps)
qed

text \<open>
  C3. For any authenticated user \<open>u\<close> and any cat \<open>C\<close> of the table, whoever owns it,
  a POST to the delete view with the id of \<open>C\<close> deletes \<open>C\<close> and redirects to
  \<^verbatim>\<open>/cats/\<close>, and a POST to the update view whose form is valid writes the submitted
  breed, description and age into \<open>C\<close> and redirects to its detail page. Neither view
  compares the owner of \<open>C\<close> with \<open>u\<close>.
\<close>

theorem CatUpdate_CatDelete_any_user:
  assumes "request_user r = Some u" and "request_method r = POST"
    and "C \<in> set (cats d)" and "distinct (map Cat_id (cats d))"
  shows "CatDelete d r (Cat_id C) = (Cat_delete (Cat_id C) d, Inr (Redirect (Path ''/cats/'')))
       \<and> C \<notin> set (cats (Cat_delete (Cat_id C) d))
       \<and> (CatUpdate_cleaned_data fw (request_POST r) = Some (b, ds, a) \<longrightarrow>
            CatUpdate fw d r (Cat_id C) =
              (d\<lparr>cats := map (\<lambda>c. if Cat_id c = Cat_id C
                                   then C\<lparr>Cat_breed := b, Cat_description := ds, Cat_age := a\<rparr>
                                   else c) (cats d)\<rparr>,
               Inr (Redirect (Named ''cat-detail'' [(''cat_id'', Cat_id C)]))))"
proof -
  have g: "get_object (Cat_id C) d = Inr C"
    using assms(3,4) by (simp add: get_object_pk)
  have "CatDelete d r (Cat_id C) = (Cat_delete (Cat_id C) d, Inr (Redirect (Path ''/cats/'')))"
    using assms(1,2) g by (simp add: CatDelete_def)
  moreover have "C \<notin> set (cats (Cat_delete (Cat_id C) d))"
    by (simp add: Cat_delete_def)
  moreover have "CatUpdate_cleaned_data fw (request_POST r) = Some (b, ds, a) \<longrightarrow>
            CatUpdate fw d r (Cat_id C) =
              (d\<lparr>cats := map (\<lambda>c. if Cat_id c = Cat_id C
                                   then C\<lparr>Cat_breed := b, Cat_description := ds, Cat_age := a\<rparr>
                                   else c) (cats d)\<rparr>,
               Inr (Redirect (Named ''cat-detail'' [(''cat_id'', Cat_id C)])))"
    using assms(1,2) g by (simp add: CatUpdate_def Let_def)
  ultimately show ?thesis by blast
qed

text \<open>User 1 deletes, and updates, the cat Tom of user 2.\<close>

theorem CatUpdate_CatDelete_any_user_witness:
  "request_user (post_request 1 [(''breed'', ''Siamese''), (''description'', ''Changed''), (''age'', ''6'')]) = Some 1
   \<and> Cat_user tom = 2
   \<and> tom \<in> set (cats example_db)
   \<and> distinct (map Cat_id (cats example_db))
   \<and> snd (CatDelete example_db
        (post_request 1 [(''breed'', ''Siamese''), (''description'', ''Changed''), (''age'', ''6'')]) 2)
      = Inr (Redirect (Path ''/cats/''))
   \<and> cats (fst (CatDelete example_db
        (post_request 1 [(''breed'', ''Siamese''), (''description'', ''Changed''), (''age'', ''6'')]) 2))
      = [whiskers]
   \<and> cats (fst (CatUpdate example_framework example_db
        (post_request 1 [(''breed'', ''Siamese''), (''description'', ''Changed''), (''age'', ''6'')]) 2))
      = [whiskers, tom\<lparr>Cat_breed := ''Siamese'', Cat_description := ''Changed'', Cat_age := 6\<rparr>]"
proof -
  let ?r = "post_request 1 [(''breed'', ''Siamese''), (''description'', ''Changed''), (''age'', ''6'')]"
  have u: "request_user ?r = Some 1" and m: "request_method ?r = POST"
    by (simp_all add: post_request_simps)
  have t: "tom \<in> set (cats example_db)" by (simp add: example_db_simps)
  have c: "CatUpdate_cleaned_data example_framework (request_POST ?r)
           = Some (''Siamese'', ''Changed'', 6)"
    by (simp add: CatUpdate_cleaned_data_def example_framework_def example_int_def digit_of_def
          post_request_simps)
  from CatUpdate_CatDelete_any_user [OF u m t example_db_distinct,
         of example_framework "''Siamese''" "''Changed''" 6] c
  have "CatDelete example_db ?r (Cat_id tom)
          = (Cat_delete (Cat_id tom) example_db, Inr (Redirect (Path ''/cats/'')))"
    and "CatUpdate example_framework example_db ?r (Cat_id tom) =
              (example_db\<lparr>cats := map (\<lambda>c. if Cat_id c = Cat_id tom
                   then tom\<lparr>Cat_breed := ''Siamese'', Cat_description := ''Changed'', Cat_age := 6\<rparr>
                   else c) (cats example_db)\<rparr>,
               Inr (Redirect (Named ''cat-detail'' [(''cat_id'', Cat_id tom)])))"
    by blast+
  then show ?thesis
    using u t example_db_distinct
    by (simp add: example_cats_simps example_db_simps Cat_delete_def)
qed

text \<open>
  C4. When the delete view deletes a cat \<open>C\<close>, every feeding of \<open>C\<close> is deleted with it
  (none is left, the number of feedings drops by the number \<open>C\<close> had, and the feedings
  of other cats stay); and if no feeding refers to a missing cat, then the same holds
  after any sequence of requests, in particular after any sequence of requests to a
  fresh installation.
\<close>

theorem delete_cascades_no_orphans:
  "(request_user r = Some u \<and> request_method r = POST \<and> C \<in> set (cats d)
      \<and> distinct (map Cat_id (cats d))
    \<longrightarrow> filter (\<lambda>f. Feeding_cat_id f = Cat_id C) (feedings (fst (CatDelete d r (Cat_id C)))) = []
        \<and> length (feedings (fst (CatDelete d r (Cat_id C))))
            + length (filter (\<lambda>f. Feeding_cat_id f = Cat_id C) (feedings d))
          = length (feedings d)
        \<and> filter (\<lambda>f. Feeding_cat_id f \<noteq> Cat_id C) (feedings (fst (CatDelete d r (Cat_id C))))
          = filter (\<lambda>f. Feeding_cat_id f \<noteq> Cat_id C) (feedings d))
   \<and> (no_orphans d \<longrightarrow> no_orphans (serve_all fw d rs))
   \<and> no_orphans (serve_all fw empty_db rs)"
proof (intro conjI impI)
  assume a: "request_user r = Some u \<and> request_method r = POST \<and> C \<in> set (cats d)
      \<and> distinct (map Cat_id (cats d))"
  then have "get_object (Cat_id C) d = Inr C" by (simp add: get_object_pk)
  with a have fs: "feedings (fst (CatDelete d r (Cat_id C)))
               = filter (\<lambda>f. Feeding_cat_id f \<noteq> Cat_id C) (feedings d)"
    by (simp add: CatDelete_def Cat_delete_def)
  show "filter (\<lambda>f. Feeding_cat_id f = Cat_id C) (feedings (fst (CatDelete d r (Cat_id C)))) = []"
    unfolding fs by (simp add: filter_empty_conv)
  show "length (feedings (fst (CatDelete d r (Cat_id C))))
            + length (filter (\<lambda>f. Feeding_cat_id f = Cat_id C) (feedings d))
          = length (feedings d)"
    unfolding fs using sum_length_filter_compl [of "\<lambda>f. Feeding_cat_id f = Cat_id C" "feedings d"]
    by simp
  show "filter (\<lambda>f. Feeding_cat_id f \<noteq> Cat_id C) (feedings (fst (CatDelete d r (Cat_id C))))
          = filter (\<lambda>f. Feeding_cat_id f \<noteq> Cat_id C) (feedings d)"
    unfolding fs by simp
next
  assume "no_orphans d"
  then show "no_orphans (serve_all fw d rs)" by (rule no_orphans_serve_all)
next
  show "no_orphans (serve_all fw empty_db rs)"
    using no_orphans_empty_db by (rule no_orphans_serve_all)
qed

text \<open>
  Deleting Whiskers removes its two feedings and leaves the one of Tom; a later
  add-feeding request for the deleted cat adds nothing.
\<close>

theorem delete_cascades_no_orphans_witness:
  "request_user (post_request 2 []) = Some 2 \<and> request_method (post_request 2 []) = POST
   \<and> whiskers \<in> set (cats example_db) \<and> distinct (map Cat_id (cats example_db))
   \<and> length (filter (\<lambda>f. Feeding_cat_id f = Cat_id whiskers) (feedings example_db)) = 2
   \<and> length (feedings (fst (CatDelete example_db (post_request 2 []) (Cat_id whiskers)))) = 1
   \<and> filter (\<lambda>f. Feeding_cat_id f = Cat_id whiskers)
        (feedings (fst (CatDelete example_db (post_request 2 []) (Cat_id whiskers)))) = []
   \<and> no_orphans example_db
   \<and> no_orphans (serve_all example_framework example_db
        [(R_cat_delete 1, post_request 2 []),
         (R_add_feeding 1, post_request 1 [(''date'', ''2024-01-01''), (''meal'', ''B'')])])"
proof -
  let ?r = "post_request 2 []"
  have u: "request_user ?r = Some 2" and m: "request_method ?r = POST"
    by (simp_all add: post_request_simps)
  have w: "whiskers \<in> set (cats example_db)" by (simp add: example_db_simps)
  have n: "length (filter (\<lambda>f. Feeding_cat_id f = Cat_id whiskers) (feedings example_db)) = 2"
    by (simp add: example_db_def whiskers_def)
  have t: "length (feedings example_db) = 3" by (simp add: example_db_def)
  note T = delete_cascades_no_orphans [of ?r 2 whiskers example_db example_framework
         "[(R_cat_delete 1, post_request 2 []),
           (R_add_feeding 1, post_request 1 [(''date'', ''2024-01-01''), (''meal'', ''B'')])]"]
  from T u m w example_db_distinct
  have a: "filter (\<lambda>f. Feeding_cat_id f = Cat_id whiskers)
             (feedings (fst (CatDelete example_db ?r (Cat_id whiskers)))) = []"
    and b: "length (feedings (fst (CatDelete example_db ?r (Cat_id whiskers))))
            + length (filter (\<lambda>f. Feeding_cat_id f = Cat_id whiskers) (feedings example_db))
          = length (feedings example_db)"
    by blast+
  from T example_db_no_orphans
  have c: "no_orphans (serve_all example_framework example_db
        [(R_cat_delete 1, post_request 2 []),
         (R_add_feeding 1, post_request 1 [(''date'', ''2024-01-01''), (''meal'', ''B'')])])"
    by blast
  from b n t have "length (feedings (fst (CatDelete example_db ?r (Cat_id whiskers)))) = 1"
    by simp
  with a c u m w n example_db_distinct example_db_no_orphans show ?thesis by blast
qed

text \<open>
  C5. Whatever the request, the update view leaves the name of every cat as it was
  (as well as its id and its owner), and the database after the update does not depend
  on a \<^verbatim>\<open>name\<close> value in the submitted data: the update form has the fields breed,
  description and age only.
\<close>

theorem CatUpdate_name_unchanged:
  "map (\<lambda>c. (Cat_id c, Cat_name c, Cat_user c)) (cats (fst (CatUpdate fw d r pk)))
     = map (\<lambda>c. (Cat_id c, Cat_name c, Cat_user c)) (cats d)
   \<and> fst (CatUpdate fw d (r\<lparr>request_POST := (request_POST r)(''name'' := v)\<rparr>) pk)
     = fst (CatUpdate fw d r pk)"
proof
  show "map (\<lambda>c. (Cat_id c, Cat_name c, Cat_user c)) (cats (fst (CatUpdate fw d r pk)))
     = map (\<lambda>c. (Cat_id c, Cat_name c, Cat_user c)) (cats d)"
    by (rule CatUpdate_keeps_columns)
next
  have "''name'' \<notin> set CatUpdate_fields" by (simp add: CatUpdate_fields_def)
  then have "CatUpdate_cleaned_data fw ((request_POST r)(''name'' := v))
             = CatUpdate_cleaned_data fw (request_POST r)"
    by (rule CatUpdate_cleaned_data_other_key)
  then show "fst (CatUpdate fw d (r\<lparr>request_POST := (request_POST r)(''name'' := v)\<rparr>) pk)
     = fst (CatUpdate fw d r pk)"
    by (simp add: CatUpdate_def Let_def split: option.splits sum.splits http_method.splits)
qed

text \<open>An update of Tom that submits \<^verbatim>\<open>name=Felix\<close> leaves the name Tom.\<close>

theorem CatUpdate_name_unchanged_witness:
  "Cat_name tom = ''Tom''
   \<and> map Cat_name (cats (fst (CatUpdate example_framework example_db
        (post_request 2 [(''name'', ''Felix''), (''breed'', ''Siamese''),
                         (''description'', ''Changed''), (''age'', ''6'')]) 2)))
     = [''Whiskers'', ''Tom'']"
proof -
  let ?r = "post_request 2 [(''name'', ''Felix''), (''breed'', ''Siamese''),
                            (''description'', ''Changed''), (''age'', ''6'')]"
  from CatUpdate_name_unchanged [of example_framework example_db ?r 2 None]
  have "map (\<lambda>c. (Cat_id c, Cat_name c, Cat_user c))
          (cats (fst (CatUpdate example_framework example_db ?r 2)))
        = map (\<lambda>c. (Cat_id c, Cat_name c, Cat_user c)) (cats example_db)"
    by blast
  then have "map (fst \<circ> snd) (map (\<lambda>c. (Cat_id c, Cat_name c, Cat_user c))
          (cats (fst (CatUpdate example_framework example_db ?r 2))))
        = map (fst \<circ> snd) (map (\<lambda>c. (Cat_id c, Cat_name c, Cat_user c)) (cats example_db))"
    by (simp only:)
  then show ?thesis
    by (simp add: o_def example_db_simps whiskers_def tom_def)
qed

text \<open>
  C6. For a cat \<open>C\<close> owned by the requesting user and a submission whose feeding form
  is not valid, add-feeding leaves the database as it was and answers with the redirect
  to the detail page of \<open>C\<close>, which carries no error. (An unknown meal code, a rejected
  date and empty data make the form invalid: lemmas \<open>FeedingForm_invalid_meal\<close>,
  \<open>FeedingForm_bad_date\<close>, \<open>FeedingForm_empty_POST\<close>.)
\<close>

theorem add_feeding_invalid_form:
  assumes "request_user r = Some u" and "C \<in> set (cats d)" and "Cat_user C = u"
    and "distinct (map Cat_id (cats d))"
    and "\<not> FeedingForm_is_valid fw (Form FeedingForm (Some (request_POST r)))"
  shows "add_feeding fw d r (Cat_id C)
         = (d, Inr (Redirect (Named ''cat-detail'' [(''cat_id'', Cat_id C)])))"
proof -
  have "objects_get (\<lambda>c. Cat_id c = Cat_id C \<and> Cat_user c = u) (cats d) = Inr C"
    using assms(4,2,3) by (rule objects_get_owned)
  with assms(1,5) show ?thesis by (simp add: add_feeding_def Let_def)
qed

text \<open>The owner of Whiskers submits the meal code \<^verbatim>\<open>X\<close>.\<close>

theorem add_feeding_invalid_form_witness:
  "request_user (post_request 1 [(''date'', ''2024-01-01''), (''meal'', ''X'')]) = Some 1
   \<and> whiskers \<in> set (cats example_db) \<and> Cat_user whiskers = 1
   \<and> distinct (map Cat_id (cats example_db))
   \<and> \<not> FeedingForm_is_valid example_framework
         (Form FeedingForm (Some (request_POST
            (post_request 1 [(''date'', ''2024-01-01''), (''meal'', ''X'')]))))
   \<and> add_feeding example_framework example_db
        (post_request 1 [(''date'', ''2024-01-01''), (''meal'', ''X'')]) 1
      = (example_db, Inr (Redirect (Named ''cat-detail'' [(''cat_id'', 1)])))"
proof -
  let ?r = "post_request 1 [(''date'', ''2024-01-01''), (''meal'', ''X'')]"
  have u: "request_user ?r = Some 1" by (simp add: post_request_simps)
  have w: "whiskers \<in> set (cats example_db)" by (simp add: example_db_simps)
  have o: "Cat_user whiskers = 1" by (simp add: example_cats_simps)
  have i: "\<not> FeedingForm_is_valid example_framework (Form FeedingForm (Some (request_POST ?r)))"
    by (rule FeedingForm_invalid_meal) (simp add: Form_def post_request_simps)
  from add_feeding_invalid_form [OF u w o example_db_distinct i]
  show ?thesis using u w o i example_db_distinct by (simp add: example_cats_simps)
qed

text \<open>
  C7. For an authenticated user \<open>u\<close> and a cat id that no cat owned by \<open>u\<close> has (no cat
  has it, or the cat that has it belongs to another user), the detail view and
  add-feeding both end in the \<^verbatim>\<open>DoesNotExist\<close> error of the lookup, which the views
  do not catch, and add-feeding leaves the database as it was.
\<close>

theorem lookup_failure_unhandled:
  assumes "request_user r = Some u"
    and "\<not> (\<exists>c \<in> set (cats d). Cat_id c = cat_id \<and> Cat_user c = u)"
  shows "cat_detail d r cat_id = Inl DoesNotExist
       \<and> add_feeding fw d r cat_id = (d, Inl DoesNotExist)"
proof -
  have "objects_get (\<lambda>c. Cat_id c = cat_id \<and> Cat_user c = u) (cats d) = Inl DoesNotExist"
    using assms(2) by (rule objects_get_none)
  with assms(1) show ?thesis by (simp add: cat_detail_def add_feeding_def)
qed

text \<open>User 1 asks for cat 2, which belongs to user 2, and for cat 7, which does not exist.\<close>

theorem lookup_failure_unhandled_witness:
  "request_user (post_request 1 [(''date'', ''2024-01-01''), (''meal'', ''B'')]) = Some 1
   \<and> \<not> (\<exists>c \<in> set (cats example_db). Cat_id c = 2 \<and> Cat_user c = 1)
   \<and> \<not> (\<exists>c \<in> set (cats example_db). Cat_id c = 7 \<and> Cat_user c = 1)
   \<and> cat_detail example_db (post_request 1 [(''date'', ''2024-01-01''), (''meal'', ''B'')]) 2
       = Inl DoesNotExist
   \<and> add_feeding example_framework example_db
        (post_request 1 [(''date'', ''2024-01-01''), (''meal'', ''B'')]) 2
       = (example_db, Inl DoesNotExist)
   \<and> cat_detail example_db (post_request 1 [(''date'', ''2024-01-01''), (''meal'', ''B'')]) 7
       = Inl DoesNotExist
   \<and> add_feeding example_framework example_db
        (post_request 1 [(''date'', ''2024-01-01''), (''meal'', ''B'')]) 7
       = (example_db, Inl DoesNotExist)"
proof -
  let ?r = "post_request 1 [(''date'', ''2024-01-01''), (''meal'', ''B'')]"
  have u: "request_user ?r = Some 1" by (simp add: post_request_simps)
  have other: "\<not> (\<exists>c \<in> set (cats example_db). Cat_id c = 2 \<and> Cat_user c = 1)"
    by (simp add: example_db_simps example_cats_simps)
  have absent: "\<not> (\<exists>c \<in> set (cats example_db). Cat_id c = 7 \<and> Cat_user c = 1)"
    by (simp add: example_db_simps example_cats_simps)
  from lookup_failure_unhandled [OF u other, of example_framework]
       lookup_failure_unhandled [OF u absent, of example_framework]
  show ?thesis using u other absent by simp
qed

text \<open>
  C8. The feedings of a cat, and the feedings of the whole table, as a query with the
  default ordering returns them, are the rows in question, and a feeding with a later
  date stands before every feeding with an earlier date: if the feeding at position
  \<open>i\<close> has a later date than the one at position \<open>j\<close>, then \<open>i < j\<close>.
\<close>

theorem feedings_most_recent_first:
  "mset (Cat_feedings_all d c) = mset (filter (\<lambda>f. Feeding_cat_id f = Cat_id c) (feedings d))
   \<and> mset (Feeding_objects_all d) = mset (feedings d)
   \<and> (\<forall>i j. i < length (Cat_feedings_all d c) \<and> j < length (Cat_feedings_all d c)
             \<and> date_less (Feeding_date (Cat_feedings_all d c ! j))
                         (Feeding_date (Cat_feedings_all d c ! i))
           \<longrightarrow> i < j)
   \<and> (\<forall>i j. i < length (Feeding_objects_all d) \<and> j < length (Feeding_objects_all d)
             \<and> date_less (Feeding_date (Feeding_objects_all d ! j))
                         (Feeding_date (Feeding_objects_all d ! i))
           \<longrightarrow> i < j)"
proof (intro conjI allI impI)
  show "mset (Cat_feedings_all d c) = mset (filter (\<lambda>f. Feeding_cat_id f = Cat_id c) (feedings d))"
    by (simp add: Cat_feedings_all_def mset_ordering_date_desc)
  show "mset (Feeding_objects_all d) = mset (feedings d)"
    by (simp add: Feeding_objects_all_def mset_ordering_date_desc)
next
  fix i j
  assume "i < length (Cat_feedings_all d c) \<and> j < length (Cat_feedings_all d c)
             \<and> date_less (Feeding_date (Cat_feedings_all d c ! j))
                         (Feeding_date (Cat_feedings_all d c ! i))"
  moreover have "sorted_wrt later_first (Cat_feedings_all d c)"
    by (simp add: Cat_feedings_all_def sorted_ordering_date_desc)
  ultimately show "i < j" using later_first_position by blast
next
  fix i j
  assume "i < length (Feeding_objects_all d) \<and> j < length (Feeding_objects_all d)
             \<and> date_less (Feeding_date (Feeding_objects_all d ! j))
                         (Feeding_date (Feeding_objects_all d ! i))"
  moreover have "sorted_wrt later_first (Feeding_objects_all d)"
    by (simp add: Feeding_objects_all_def sorted_ordering_date_desc)
  ultimately show "i < j" using later_first_position by blast
qed

text \<open>The feedings of Whiskers: the one of 2024-01-01 stands before the one of 2023-12-31.\<close>

theorem feedings_most_recent_first_witness:
  "(0 :: nat) < length (Cat_feedings_all example_db whiskers)
   \<and> (1 :: nat) < length (Cat_feedings_all example_db whiskers)
   \<and> date_less (Date 2023 12 31) (Date 2024 1 1)
   \<and> Feeding_date (Cat_feedings_all example_db whiskers ! 0) = Date 2024 1 1
   \<and> Feeding_date (Cat_feedings_all example_db whiskers ! 1) = Date 2023 12 31
   \<and> \<not> date_less (Feeding_date (Cat_feedings_all example_db whiskers ! 0))
                  (Feeding_date (Cat_feedings_all example_db whiskers ! 1))"
proof -
  have l: "length (Cat_feedings_all example_db whiskers) = 2"
    by (simp add: example_Cat_feedings_all)
  from feedings_most_recent_first [of example_db whiskers]
  have "\<forall>i j. i < length (Cat_feedings_all example_db whiskers)
             \<and> j < length (Cat_feedings_all example_db whiskers)
             \<and> date_less (Feeding_date (Cat_feedings_all example_db whiskers ! j))
                         (Feeding_date (Cat_feedings_all example_db whiskers ! i))
           \<longrightarrow> i < j"
    by blast
  then have "1 < length (Cat_feedings_all example_db whiskers)
             \<and> 0 < length (Cat_feedings_all example_db whiskers)
             \<and> date_less (Feeding_date (Cat_feedings_all example_db whiskers ! 0))
                         (Feeding_date (Cat_feedings_all example_db whiskers ! 1))
           \<longrightarrow> (1 :: nat) < 0"
    by blast
  with l have "\<not> date_less (Feeding_date (Cat_feedings_all example_db whiskers ! 0))
                  (Feeding_date (Cat_feedings_all example_db whiskers ! 1))"
    by simp
  then show ?thesis
    by (simp add: example_Cat_feedings_all date_less_def)
qed

text \<open>
  C9. For a signup POST whose form is not valid, no user is created (the database is
  as it was, and so is the session), and the signup template is rendered with a new
  empty form and the error message \<^verbatim>\<open>Invalid sign up - try again\<close>; the context
  holds nothing else. (A confirmation that does not repeat the password makes the form
  invalid: lemma \<open>UserCreationForm_password_mismatch\<close>.)
\<close>

theorem signup_invalid_generic_error:
  assumes "request_method r = POST"
    and "\<not> UserCreationForm_is_valid fw d (Form UserCreationForm (Some (request_POST r)))"
  shows "signup fw d r =
           (d, r, Render ''signup.html''
                    [(''form'', FormV (Form UserCreationForm None)),
                     (''error_message'', StrV ''Invalid sign up - try again'')])"
  using assms by (simp add: signup_def signup_render_def Let_def)

text \<open>A submission with two different passwords.\<close>

theorem signup_invalid_generic_error_witness:
  "request_method mismatch_request = POST
   \<and> \<not> UserCreationForm_is_valid example_framework example_db
         (Form UserCreationForm (Some (request_POST mismatch_request)))
   \<and> users (fst (signup example_framework example_db mismatch_request)) = users example_db
   \<and> snd (snd (signup example_framework example_db mismatch_request))
       = Render ''signup.html''
           [(''form'', FormV (Form UserCreationForm None)),
            (''error_message'', StrV ''Invalid sign up - try again'')]"
proof -
  have m: "request_method mismatch_request = POST" by (simp add: mismatch_request_def)
  from signup_invalid_generic_error [OF m mismatch_request_invalid, of example_framework example_db]
  show ?thesis using m mismatch_request_invalid [of example_framework example_db] by simp
qed

text \<open>
  C10. For a signup POST whose form is not valid, the form in the response is unbound:
  it holds none of the submitted data and has no errors, although the form bound to the
  submission had some; and the response is the same for every invalid submission, so
  nothing of the submission but the fact of its failure reaches it.
\<close>

theorem signup_invalid_form_is_fresh:
  assumes "request_method r = POST"
    and "\<not> UserCreationForm_is_valid fw d (Form UserCreationForm (Some (request_POST r)))"
  shows "\<exists>f. snd (snd (signup fw d r)) =
               Render ''signup.html''
                 [(''form'', FormV f), (''error_message'', StrV ''Invalid sign up - try again'')]
             \<and> \<not> is_bound f \<and> form_data f = Map.empty
             \<and> UserCreationForm_errors fw d f = []
             \<and> UserCreationForm_errors fw d (Form UserCreationForm (Some (request_POST r))) \<noteq> []
             \<and> (\<forall>r'. request_method r' = POST
                     \<and> \<not> UserCreationForm_is_valid fw d (Form UserCreationForm (Some (request_POST r')))
                   \<longrightarrow> snd (snd (signup fw d r')) = snd (snd (signup fw d r)))"
proof (intro exI conjI allI impI)
  show "snd (snd (signup fw d r)) =
          Render ''signup.html''
            [(''form'', FormV (Form UserCreationForm None)),
             (''error_message'', StrV ''Invalid sign up - try again'')]"
    using assms by (simp add: signup_def signup_render_def Let_def)
  show "\<not> is_bound (Form UserCreationForm None)" by (simp add: Form_def)
  show "form_data (Form UserCreationForm None) = Map.empty" by (simp add: Form_def)
  show "UserCreationForm_errors fw d (Form UserCreationForm None) = []"
    by (rule UserCreationForm_unbound_no_errors)
  show "UserCreationForm_errors fw d (Form UserCreationForm (Some (request_POST r))) \<noteq> []"
    using assms(2) by (simp add: UserCreationForm_is_valid_def Form_def)
next
  fix r' :: request
  assume "request_method r' = POST
     \<and> \<not> UserCreationForm_is_valid fw d (Form UserCreationForm (Some (request_POST r')))"
  with assms show "snd (snd (signup fw d r')) = snd (snd (signup fw d r))"
    by (simp add: signup_def signup_render_def Let_def)
qed

text \<open>
  The bound form of the submission with two different passwords has the error
  \<^verbatim>\<open>password_mismatch\<close>; the form of the response has none.
\<close>

theorem signup_invalid_form_is_fresh_witness:
  "request_method mismatch_request = POST
   \<and> \<not> UserCreationForm_is_valid example_framework example_db
         (Form UserCreationForm (Some (request_POST mismatch_request)))
   \<and> UserCreationForm_errors example_framework example_db
         (Form UserCreationForm (Some (request_POST mismatch_request)))
       = [(''password2'', ''password_mismatch'')]
   \<and> (\<exists>f. snd (snd (signup example_framework example_db mismatch_request)) =
               Render ''signup.html''
                 [(''form'', FormV f), (''error_message'', StrV ''Invalid sign up - try again'')]
           \<and> \<not> is_bound f \<and> form_data f = Map.empty
           \<and> UserCreationForm_errors example_framework example_db f = [])"
proof -
  have m: "request_method mismatch_request = POST" by (simp add: mismatch_request_def)
  have e: "UserCreationForm_errors example_framework example_db
         (Form UserCreationForm (Some (request_POST mismatch_request)))
       = [(''password2'', ''password_mismatch'')]"
    by (simp add: UserCreationForm_errors_def Form_def mismatch_request_def
          example_framework_def example_db_def)
  from signup_invalid_form_is_fresh [OF m mismatch_request_invalid, of example_framework example_db]
  have "\<exists>f. snd (snd (signup example_framework example_db mismatch_request)) =
               Render ''signup.html''
                 [(''form'', FormV f), (''error_message'', StrV ''Invalid sign up - try again'')]
           \<and> \<not> is_bound f \<and> form_data f = Map.empty
           \<and> UserCreationForm_errors example_framework example_db f = []"
    by blast
  with m e mismatch_request_invalid [of example_framework example_db] show ?thesis by blast
qed

end
